theory Spec2Isabelle
  imports Main
begin

section \<open>Values exchanged with the provider and Python's view of them\<close>

text \<open>
  \<^verbatim>\<open>response.json()\<close> yields an arbitrary JSON value. Python's \<^verbatim>\<open>None\<close> and JSON
  \<^verbatim>\<open>null\<close> are the same value \<open>JNull\<close>; numbers are integers (floating point is not
  embedded). An object is an association list in document order.
\<close>

datatype json =
    JNull
  | JBool bool
  | JNum int
  | JStr string
  | JArr "json list"
  | JObj "(string \<times> json) list"

datatype py_error =
    NameError
  | AttributeError
  | KeyError
  | TypeError
  | ValueError
  | RequestException
  | DetectionFailed
  | Unmodelled

text \<open>Truth value of a JSON value in a Python condition.\<close>

fun truthy :: "json \<Rightarrow> bool" where
  "truthy JNull = False"
| "truthy (JBool b) = b"
| "truthy (JNum n) = (n \<noteq> 0)"
| "truthy (JStr s) = (s \<noteq> [])"
| "truthy (JArr xs) = (xs \<noteq> [])"
| "truthy (JObj kvs) = (kvs \<noteq> [])"

text \<open>A later duplicate key of a JSON object overrides an earlier one.\<close>

definition lookup :: "(string \<times> json) list \<Rightarrow> string \<Rightarrow> json option" where
  "lookup kvs k = map_of (rev kvs) k"

text \<open>\<^verbatim>\<open>d.get(k)\<close>: only a dict has the method; a missing key gives \<^verbatim>\<open>None\<close>.\<close>

fun dict_get :: "json \<Rightarrow> string \<Rightarrow> py_error + json" where
  "dict_get (JObj kvs) k = (case lookup kvs k of None \<Rightarrow> Inr JNull | Some v \<Rightarrow> Inr v)"
| "dict_get _ k = Inl AttributeError"

text \<open>\<^verbatim>\<open>d[k]\<close> with a string key.\<close>

fun getitem :: "json \<Rightarrow> string \<Rightarrow> py_error + json" where
  "getitem (JObj kvs) k = (case lookup kvs k of None \<Rightarrow> Inl KeyError | Some v \<Rightarrow> Inr v)"
| "getitem _ k = Inl TypeError"

text \<open>
  \<^verbatim>\<open>for x in v\<close>: a list yields its items, a dict its keys, a string its characters;
  the other values are not iterable.
\<close>

fun py_iter :: "json \<Rightarrow> py_error + json list" where
  "py_iter (JArr xs) = Inr xs"
| "py_iter (JObj kvs) = Inr (map JStr (rev (remdups (rev (map fst kvs)))))"
| "py_iter (JStr s) = Inr (map (\<lambda>c. JStr [c]) s)"
| "py_iter _ = Inl TypeError"

text \<open>\<^verbatim>\<open>v == b\<close> for a Python bool \<open>b\<close>: \<^verbatim>\<open>True == 1\<close> and \<^verbatim>\<open>False == 0\<close> hold.\<close>

fun json_eq_bool :: "json \<Rightarrow> bool \<Rightarrow> bool" where
  "json_eq_bool (JBool c) b = (c = b)"
| "json_eq_bool (JNum n) b = (n = (if b then 1 else 0))"
| "json_eq_bool _ b = False"

section \<open>Configuration and globals\<close>

record authentication =
  api_token :: "string option"
  api_key :: "(string \<times> string) option"

datatype subdomain =
    SubStr string
  | SubDict "string option" "bool option"

record account =
  authentication :: authentication
  zone_id :: string
  proxied :: bool
  subdomains :: "subdomain list"

text \<open>
  The parsed \<^verbatim>\<open>config.json\<close>. The script reads the keys \<^verbatim>\<open>cloudflare\<close> and \<^verbatim>\<open>ttl\<close>.
  The key \<^verbatim>\<open>purgeUnknownRecords\<close> is the purge switch of the configuration; it is
  carried here although no line of the script reads it.
\<close>

record config =
  cloudflare :: "account list"
  cfg_ttl :: "int option"
  cfg_purgeUnknownRecords :: "bool option"

text \<open>
  The module globals as \<^verbatim>\<open>__main__\<close> binds them before the loop: the three feature
  toggles are constants of the script, \<^verbatim>\<open>ttl\<close> is \<^verbatim>\<open>max(config.get("ttl", 300), 1)\<close>.
\<close>

record globals =
  g_config :: config
  ttl :: int
  ipv4_enabled :: bool
  ipv6_enabled :: bool
  purgeUnknownRecords :: bool

definition main_globals :: "config \<Rightarrow> globals" where
  "main_globals c =
     \<lparr> g_config = c,
       ttl = max (case cfg_ttl c of None \<Rightarrow> 300 | Some t \<Rightarrow> t) 1,
       ipv4_enabled = True,
       ipv6_enabled = True,
       purgeUnknownRecords = False \<rparr>"

text \<open>The argument of \<^verbatim>\<open>time.sleep\<close> at the end of every cycle.\<close>

definition poll_interval :: "globals \<Rightarrow> int" where
  "poll_interval g = ttl g"

section \<open>Desired records\<close>

text \<open>
  A detected address as \<^verbatim>\<open>getIPs\<close> stores it: \<^verbatim>\<open>{"type": ..., "ip": ...}\<close>. The
  \<^verbatim>\<open>ip\<close> entry is whatever the local variable held, so it is a JSON-like value.
\<close>

record detected_ip =
  ip_type :: string
  ip :: json

record dns_record =
  r_type :: string
  r_name :: string
  r_content :: json
  r_proxied :: bool
  r_ttl :: int

text \<open>
  \<^verbatim>\<open>str.strip()\<close> and \<^verbatim>\<open>str.lower()\<close> restricted to ASCII text, where the whitespace
  characters are TAB, LF, VT, FF, CR, FS, GS, RS, US and the space, and only \<open>A\<close> to
  \<open>Z\<close> change case. On other text Python also strips further Unicode whitespace and
  lowers further capitals, so \<open>strip\<close> and \<open>lower\<close> are the library's functions on the
  names that satisfy \<open>is_ascii\<close> only, and the statements about names assume it.
\<close>

definition is_ascii :: "string \<Rightarrow> bool" where
  "is_ascii s = list_all (\<lambda>c. (of_char c :: nat) < 128) s"

definition is_space :: "char \<Rightarrow> bool" where
  "is_space c = (of_char c \<in> {9, 10, 11, 12, 13, 28, 29, 30, 31, 32 :: nat})"

definition is_upper :: "char \<Rightarrow> bool" where
  "is_upper c = (65 \<le> (of_char c :: nat) \<and> (of_char c :: nat) \<le> 90)"

definition lower_char :: "char \<Rightarrow> char" where
  "lower_char c = (if is_upper c then char_of (of_char c + (32 :: nat)) else c)"

definition strip :: "string \<Rightarrow> string" where
  "strip s = rev (dropWhile is_space (rev (dropWhile is_space s)))"

definition lower :: "string \<Rightarrow> string" where
  "lower s = map lower_char s"

text \<open>
  \<^verbatim>\<open>subdomain.get("name", subdomain).strip().lower()\<close>: a string target has no
  \<^verbatim>\<open>get\<close>; a dict without \<^verbatim>\<open>name\<close> makes the default, the dict itself, the
  receiver of \<^verbatim>\<open>strip\<close>.
\<close>

fun prepareDNSRecord ::
  "globals \<Rightarrow> subdomain \<Rightarrow> string \<Rightarrow> detected_ip \<Rightarrow> account \<Rightarrow> py_error + (string \<times> dns_record)"
where
  "prepareDNSRecord g (SubStr s) base_domain_name ipa option = Inl AttributeError"
| "prepareDNSRecord g (SubDict None p) base_domain_name ipa option = Inl AttributeError"
| "prepareDNSRecord g (SubDict (Some n) p) base_domain_name ipa option =
     (let name = lower (strip n);
          prox = (case p of None \<Rightarrow> proxied option | Some b \<Rightarrow> b);
          fqdn = (if name \<noteq> [] \<and> name \<noteq> ''@''
                  then name @ ''.'' @ base_domain_name else base_domain_name);
          record = \<lparr> r_type = ip_type ipa, r_name = fqdn, r_content = ip ipa,
                     r_proxied = prox, r_ttl = ttl g \<rparr>
      in Inr (fqdn, record))"

section \<open>The network and the program state\<close>

datatype http_method = GET | POST | PUT | DELETE

text \<open>
  The endpoint strings of the source, kept as their parts:
  \<^verbatim>\<open>zones/{zone_id}\<close>, \<^verbatim>\<open>zones/{zone_id}/dns_records?per_page=100&type={type}\<close>,
  \<^verbatim>\<open>zones/{zone_id}/dns_records\<close> and \<^verbatim>\<open>zones/{zone_id}/dns_records/{identifier}\<close>.
\<close>

datatype endpoint =
    Zone string
  | DnsRecordsList string string
  | DnsRecords string
  | DnsRecordById string json

datatype headers =
    Bearer string
  | AuthEmailKey string string

text \<open>
  \<open>IpGet url timeout\<close> is \<^verbatim>\<open>requests.get(url, timeout=...)\<close>; \<open>CfRequest\<close> is the
  \<^verbatim>\<open>requests.request(method, url, headers=headers, json=data)\<close> of \<^verbatim>\<open>cf_api\<close>.
\<close>

datatype request =
    IpGet string "nat option"
  | CfRequest http_method endpoint headers "dns_record option"

text \<open>
  A response carries its status, its text and what \<^verbatim>\<open>response.json()\<close> returns
  (\<open>None\<close> when the body is not JSON: the decoding error is a \<^verbatim>\<open>RequestException\<close>).
  Other exceptions of \<^verbatim>\<open>response.json()\<close>, such as \<^verbatim>\<open>RecursionError\<close> on a deeply
  nested body, are not embedded: no statement below says that \<open>cf_api\<close> cannot raise.
\<close>

record response =
  status_code :: nat
  body_text :: string
  json_result :: "json option"



text \<open>
  The outside world answers a request and moves on; no answer (\<open>None\<close>) is a
  \<^verbatim>\<open>requests.RequestException\<close> raised by the call.
\<close>

type_synonym 'w net = "'w \<Rightarrow> request \<Rightarrow> response option \<times> 'w"

datatype log_line =
    RequestError http_method endpoint
  | Deleted json
  | Updating dns_record
  | Adding dns_record
  | ServiceError string
  | Ipv4Failed
  | Ipv6Primary
  | Ipv6Secondary
  | UpdatingIPs "detected_ip list"
  | Success string json
  | Failed string py_error

text \<open>
  The state that a cycle changes: the world, the requests sent so far, the lines
  printed so far, and the three warn-once globals, \<open>None\<close> while the name is unbound.
\<close>

record 'w state =
  world :: 'w
  calls :: "request list"
  printed :: "log_line list"
  shown_ipv4_warning :: "bool option"
  shown_ipv6_warning :: "bool option"
  shown_ipv6_warning_secondary :: "bool option"

text \<open>\<^verbatim>\<open>__main__\<close> never assigns the warn-once globals before the loop.\<close>

definition main_state :: "'w \<Rightarrow> 'w state" where
  "main_state w =
     \<lparr> world = w, calls = [], printed = [],
       shown_ipv4_warning = None, shown_ipv6_warning = None,
       shown_ipv6_warning_secondary = None \<rparr>"

definition say :: "log_line \<Rightarrow> 'w state \<Rightarrow> 'w state" where
  "say l s = s\<lparr>printed := printed s @ [l]\<rparr>"

definition send :: "'w net \<Rightarrow> request \<Rightarrow> 'w state \<Rightarrow> response option \<times> 'w state" where
  "send net req s =
     (case net (world s) req of
        (rep, w') \<Rightarrow> (rep, s\<lparr>world := w', calls := calls s @ [req]\<rparr>))"

section \<open>Provider client\<close>

definition buildHeaders :: "account \<Rightarrow> py_error + headers" where
  "buildHeaders option =
     (case api_token (authentication option) of
        Some t \<Rightarrow> Inr (Bearer t)
      | None \<Rightarrow>
          (case api_key (authentication option) of
             None \<Rightarrow> Inl KeyError
           | Some (account_email, k) \<Rightarrow> Inr (AuthEmailKey account_email k)))"

text \<open>
  \<^verbatim>\<open>raise_for_status\<close> raises for the statuses 400 to 599 only. The headers are
  built outside the \<^verbatim>\<open>try\<close>, so their error leaves \<open>cf_api\<close>. The handler catches
  \<^verbatim>\<open>RequestException\<close> only: the transport errors, the status error and the decoding
  error of \<^verbatim>\<open>response.json()\<close> are the failures embedded here.
\<close>

definition cf_api ::
  "'w net \<Rightarrow> endpoint \<Rightarrow> http_method \<Rightarrow> account \<Rightarrow> dns_record option \<Rightarrow> 'w state
     \<Rightarrow> (py_error + json) \<times> 'w state"
where
  "cf_api net endpoint method option data s =
     (case buildHeaders option of
        Inl e \<Rightarrow> (Inl e, s)
      | Inr hs \<Rightarrow>
          (case send net (CfRequest method endpoint hs data) s of
             (None, s1) \<Rightarrow> (Inr JNull, say (RequestError method endpoint) s1)
           | (Some r, s1) \<Rightarrow>
               if 400 \<le> status_code r \<and> status_code r < 600
               then (Inr JNull, say (RequestError method endpoint) s1)
               else (case json_result r of
                       None \<Rightarrow> (Inr JNull, say (RequestError method endpoint) s1)
                     | Some j \<Rightarrow> (Inr j, s1))))"

section \<open>Record reconciler\<close>

text \<open>
  The loop of \<^verbatim>\<open>processDNSRecord\<close> over the listed records, with its two local
  variables \<open>(identifier, modified)\<close>. The \<^verbatim>\<open>or\<close> does not read \<^verbatim>\<open>r['proxied']\<close>
  when the contents already differ.
\<close>

fun scan_records ::
  "string \<Rightarrow> dns_record \<Rightarrow> json list \<Rightarrow> json \<times> bool \<Rightarrow> py_error + (json \<times> bool)"
where
  "scan_records fqdn record [] acc = Inr acc"
| "scan_records fqdn record (r # rs) acc =
     (case getitem r ''name'' of
        Inl e \<Rightarrow> Inl e
      | Inr n \<Rightarrow>
          if n = JStr fqdn then
            (case getitem r ''id'' of
               Inl e \<Rightarrow> Inl e
             | Inr identifier \<Rightarrow>
                 (case getitem r ''content'' of
                    Inl e \<Rightarrow> Inl e
                  | Inr c \<Rightarrow>
                      if c \<noteq> r_content record
                      then scan_records fqdn record rs (identifier, True)
                      else (case getitem r ''proxied'' of
                              Inl e \<Rightarrow> Inl e
                            | Inr p \<Rightarrow>
                                scan_records fqdn record rs
                                  (identifier, \<not> json_eq_bool p (r_proxied record)))))
          else scan_records fqdn record rs acc)"

definition processDNSRecord ::
  "'w net \<Rightarrow> string \<Rightarrow> dns_record \<Rightarrow> string \<Rightarrow> account \<Rightarrow> 'w state
     \<Rightarrow> (py_error + unit) \<times> 'w state"
where
  "processDNSRecord net fqdn record record_type option s =
     (case cf_api net (DnsRecordsList (zone_id option) record_type) GET option None s of
        (Inl e, s1) \<Rightarrow> (Inl e, s1)
      | (Inr dns_records, s1) \<Rightarrow>
          if \<not> truthy dns_records then (Inr (), s1)
          else (case dict_get dns_records ''result'' of
                  Inl e \<Rightarrow> (Inl e, s1)
                | Inr res \<Rightarrow>
                    if \<not> truthy res then (Inr (), s1)
                    else (case py_iter res of
                            Inl e \<Rightarrow> (Inl e, s1)
                          | Inr rs \<Rightarrow>
                              (case scan_records fqdn record rs (JNull, False) of
                                 Inl e \<Rightarrow> (Inl e, s1)
                               | Inr (identifier, modified) \<Rightarrow>
                                   if truthy identifier \<and> modified then
                                     (case cf_api net (DnsRecordById (zone_id option) identifier)
                                             PUT option (Some record) (say (Updating record) s1) of
                                        (Inl e, s2) \<Rightarrow> (Inl e, s2)
                                      | (Inr _, s2) \<Rightarrow> (Inr (), s2))
                                   else if \<not> truthy identifier then
                                     (case cf_api net (DnsRecords (zone_id option))
                                             POST option (Some record) (say (Adding record) s1) of
                                        (Inl e, s2) \<Rightarrow> (Inl e, s2)
                                      | (Inr _, s2) \<Rightarrow> (Inr (), s2))
                                   else (Inr (), s1)))))"

fun process_subdomains ::
  "globals \<Rightarrow> 'w net \<Rightarrow> subdomain list \<Rightarrow> string \<Rightarrow> detected_ip \<Rightarrow> account \<Rightarrow> 'w state
     \<Rightarrow> (py_error + unit) \<times> 'w state"
where
  "process_subdomains g net [] base_domain_name ipa option s = (Inr (), s)"
| "process_subdomains g net (subdomain # rest) base_domain_name ipa option s =
     (case prepareDNSRecord g subdomain base_domain_name ipa option of
        Inl e \<Rightarrow> (Inl e, s)
      | Inr (fqdn, record) \<Rightarrow>
          (case processDNSRecord net fqdn record (ip_type ipa) option s of
             (Inl e, s1) \<Rightarrow> (Inl e, s1)
           | (Inr _, s1) \<Rightarrow> process_subdomains g net rest base_domain_name ipa option s1))"

text \<open>
  The loop of \<^verbatim>\<open>commitRecord\<close> over the accounts. The zone's name is a string in the
  provider's schema; a reply whose name is another JSON value would be formatted with
  \<^verbatim>\<open>str()\<close>, which is not embedded: that branch ends in \<open>Unmodelled\<close>.
\<close>

fun commit_accounts ::
  "globals \<Rightarrow> 'w net \<Rightarrow> account list \<Rightarrow> detected_ip \<Rightarrow> 'w state \<Rightarrow> (py_error + unit) \<times> 'w state"
where
  "commit_accounts g net [] ipa s = (Inr (), s)"
| "commit_accounts g net (option # rest) ipa s =
     (case cf_api net (Zone (zone_id option)) GET option None s of
        (Inl e, s1) \<Rightarrow> (Inl e, s1)
      | (Inr response, s1) \<Rightarrow>
          if \<not> truthy response then commit_accounts g net rest ipa s1
          else (case dict_get response ''result'' of
                  Inl e \<Rightarrow> (Inl e, s1)
                | Inr res \<Rightarrow>
                    if \<not> truthy res then commit_accounts g net rest ipa s1
                    else (case getitem res ''name'' of
                            Inl e \<Rightarrow> (Inl e, s1)
                          | Inr (JStr base_domain_name) \<Rightarrow>
                              (case process_subdomains g net (subdomains option)
                                      base_domain_name ipa option s1 of
                                 (Inl e, s2) \<Rightarrow> (Inl e, s2)
                               | (Inr _, s2) \<Rightarrow> commit_accounts g net rest ipa s2)
                          | Inr _ \<Rightarrow> (Inl Unmodelled, s1))))"

definition commitRecord ::
  "globals \<Rightarrow> 'w net \<Rightarrow> detected_ip \<Rightarrow> 'w state \<Rightarrow> (py_error + unit) \<times> 'w state"
where
  "commitRecord g net ipa s = commit_accounts g net (cloudflare (g_config g)) ipa s"

text \<open>\<^verbatim>\<open>updateIPs\<close> catches every exception of \<^verbatim>\<open>commitRecord\<close> and goes on.\<close>

fun update_each :: "globals \<Rightarrow> 'w net \<Rightarrow> detected_ip list \<Rightarrow> 'w state \<Rightarrow> 'w state" where
  "update_each g net [] s = s"
| "update_each g net (ipa # rest) s =
     (case commitRecord g net ipa s of
        (Inr _, s1) \<Rightarrow> update_each g net rest (say (Success (ip_type ipa) (ip ipa)) s1)
      | (Inl e, s1) \<Rightarrow> update_each g net rest (say (Failed (ip_type ipa) e) s1))"

definition updateIPs :: "globals \<Rightarrow> 'w net \<Rightarrow> detected_ip list \<Rightarrow> 'w state \<Rightarrow> 'w state" where
  "updateIPs g net ips s = update_each g net ips (say (UpdatingIPs ips) s)"

section \<open>Purge manager\<close>

fun delete_records ::
  "'w net \<Rightarrow> account \<Rightarrow> json list \<Rightarrow> 'w state \<Rightarrow> (py_error + unit) \<times> 'w state"
where
  "delete_records net option [] s = (Inr (), s)"
| "delete_records net option (record # rest) s =
     (case getitem record ''id'' of
        Inl e \<Rightarrow> (Inl e, s)
      | Inr identifier \<Rightarrow>
          (case cf_api net (DnsRecordById (zone_id option) identifier) DELETE option None s of
             (Inl e, s1) \<Rightarrow> (Inl e, s1)
           | (Inr _, s1) \<Rightarrow> delete_records net option rest (say (Deleted identifier) s1)))"

fun delete_accounts ::
  "'w net \<Rightarrow> account list \<Rightarrow> string \<Rightarrow> 'w state \<Rightarrow> (py_error + unit) \<times> 'w state"
where
  "delete_accounts net [] ty s = (Inr (), s)"
| "delete_accounts net (option # rest) ty s =
     (case cf_api net (DnsRecordsList (zone_id option) ty) GET option None s of
        (Inl e, s1) \<Rightarrow> (Inl e, s1)
      | (Inr answer, s1) \<Rightarrow>
          if \<not> truthy answer then delete_accounts net rest ty s1
          else (case dict_get answer ''result'' of
                  Inl e \<Rightarrow> (Inl e, s1)
                | Inr res \<Rightarrow>
                    if \<not> truthy res then delete_accounts net rest ty s1
                    else (case py_iter res of
                            Inl e \<Rightarrow> (Inl e, s1)
                          | Inr records \<Rightarrow>
                              (case delete_records net option records s1 of
                                 (Inl e, s2) \<Rightarrow> (Inl e, s2)
                               | (Inr _, s2) \<Rightarrow> delete_accounts net rest ty s2))))"

definition deleteEntries ::
  "globals \<Rightarrow> 'w net \<Rightarrow> string \<Rightarrow> 'w state \<Rightarrow> (py_error + unit) \<times> 'w state"
where
  "deleteEntries g net ty s = delete_accounts net (cloudflare (g_config g)) ty s"

section \<open>IP resolver\<close>

definition ip_detection_services :: "string list" where
  "ip_detection_services =
     [''https://api.ipify.org'', ''https://icanhazip.com'', ''https://ifconfig.me'']"

text \<open>
  The loop of \<^verbatim>\<open>get_public_ip\<close>: the first service answering 200 wins; running out of
  services is the \<^verbatim>\<open>raise Exception(...)\<close> after the loop.
\<close>

fun try_services :: "'w net \<Rightarrow> string list \<Rightarrow> 'w state \<Rightarrow> (py_error + string) \<times> 'w state" where
  "try_services net [] s = (Inl DetectionFailed, s)"
| "try_services net (service # rest) s =
     (case send net (IpGet service (Some 5)) s of
        (None, s1) \<Rightarrow> try_services net rest (say (ServiceError service) s1)
      | (Some r, s1) \<Rightarrow>
          if status_code r = 200 then (Inr (strip (body_text r)), s1)
          else try_services net rest s1)"

definition get_public_ip :: "'w net \<Rightarrow> 'w state \<Rightarrow> (py_error + string) \<times> 'w state" where
  "get_public_ip net s = try_services net ip_detection_services s"

text \<open>\<^verbatim>\<open>s.split(c)\<close> with a one-character separator.\<close>

fun split_on :: "char \<Rightarrow> string \<Rightarrow> string list" where
  "split_on c [] = [] # []"
| "split_on c (x # xs) =
     (if x = c then [] # split_on c xs
      else (case split_on c xs of
              [] \<Rightarrow> [x] # []
            | p # ps \<Rightarrow> (x # p) # ps))"

text \<open>
  \<^verbatim>\<open>dict(s.split("=") for s in lines)\<close>: every line must split into exactly two
  parts, otherwise \<^verbatim>\<open>dict\<close> raises \<^verbatim>\<open>ValueError\<close>.
\<close>

fun trace_pairs :: "string list \<Rightarrow> py_error + (string \<times> string) list" where
  "trace_pairs [] = Inr []"
| "trace_pairs (l # ls) =
     (case split_on CHR ''='' l of
        [k, v] \<Rightarrow> (case trace_pairs ls of Inl e \<Rightarrow> Inl e | Inr kvs \<Rightarrow> Inr ((k, v) # kvs))
      | _ \<Rightarrow> Inl ValueError)"

text \<open>
  One of the two IPv6 attempts of \<^verbatim>\<open>getIPs\<close>, with the local variable \<^verbatim>\<open>aaaa\<close>
  passed in and out: the variable is first rebound to the list of lines, so it keeps
  that list when building the dict or reading \<^verbatim>\<open>"ip"\<close> raises, and keeps its old
  value when the request itself raises.
\<close>

definition trace_attempt ::
  "'w net \<Rightarrow> string \<Rightarrow> json \<Rightarrow> 'w state \<Rightarrow> (py_error option \<times> json) \<times> 'w state"
where
  "trace_attempt net url aaaa s =
     (case send net (IpGet url None) s of
        (None, s1) \<Rightarrow> ((Some RequestException, aaaa), s1)
      | (Some r, s1) \<Rightarrow>
          (let ls = butlast (split_on (CHR 0x0A) (body_text r)) in
           case trace_pairs ls of
             Inl e \<Rightarrow> ((Some e, JArr (map JStr ls)), s1)
           | Inr kvs \<Rightarrow>
               (case map_of (rev kvs) ''ip'' of
                  None \<Rightarrow> ((Some KeyError, JArr (map JStr ls)), s1)
                | Some v \<Rightarrow> ((None, JStr v), s1))))"

definition trace_primary :: string where
  "trace_primary = ''https://[2606:4700:4700::1111]/cdn-cgi/trace''"

definition trace_secondary :: string where
  "trace_secondary = ''https://[2606:4700:4700::1001]/cdn-cgi/trace''"

text \<open>
  The IPv4 block of \<^verbatim>\<open>getIPs\<close>; the result is the final value of the local \<^verbatim>\<open>a\<close>.
  The handler reads the global \<^verbatim>\<open>shown_ipv4_warning\<close> before it may assign it, and
  it runs \<^verbatim>\<open>deleteEntries\<close> outside any \<^verbatim>\<open>try\<close>.
\<close>

definition detect_ipv4 :: "globals \<Rightarrow> 'w net \<Rightarrow> 'w state \<Rightarrow> (py_error + json) \<times> 'w state" where
  "detect_ipv4 g net s =
     (if \<not> ipv4_enabled g then (Inr JNull, s)
      else (case get_public_ip net s of
              (Inr a, s1) \<Rightarrow> (Inr (JStr a), s1)
            | (Inl e, s1) \<Rightarrow>
                (case shown_ipv4_warning s1 of
                   None \<Rightarrow> (Inl NameError, s1)
                 | Some shown \<Rightarrow>
                     (let s2 = (if \<not> shown
                                then say Ipv4Failed (s1\<lparr>shown_ipv4_warning := Some True\<rparr>)
                                else s1)
                      in if purgeUnknownRecords g then
                           (case deleteEntries g net ''A'' s2 of
                              (Inl e', s3) \<Rightarrow> (Inl e', s3)
                            | (Inr _, s3) \<Rightarrow> (Inr JNull, s3))
                         else (Inr JNull, s2)))))"

text \<open>The IPv6 block of \<^verbatim>\<open>getIPs\<close>; the result is the final value of \<^verbatim>\<open>aaaa\<close>.\<close>

definition detect_ipv6 :: "globals \<Rightarrow> 'w net \<Rightarrow> 'w state \<Rightarrow> (py_error + json) \<times> 'w state" where
  "detect_ipv6 g net s =
     (if \<not> ipv6_enabled g then (Inr JNull, s)
      else (case trace_attempt net trace_primary JNull s of
              ((None, aaaa), s1) \<Rightarrow> (Inr aaaa, s1)
            | ((Some e, aaaa), s1) \<Rightarrow>
                (case shown_ipv6_warning s1 of
                   None \<Rightarrow> (Inl NameError, s1)
                 | Some shown \<Rightarrow>
                     (let s2 = (if \<not> shown
                                then say Ipv6Primary (s1\<lparr>shown_ipv6_warning := Some True\<rparr>)
                                else s1)
                      in case trace_attempt net trace_secondary aaaa s2 of
                           ((None, aaaa2), s3) \<Rightarrow> (Inr aaaa2, s3)
                         | ((Some e2, aaaa2), s3) \<Rightarrow>
                             (case shown_ipv6_warning_secondary s3 of
                                None \<Rightarrow> (Inl NameError, s3)
                              | Some shown2 \<Rightarrow>
                                  (let s4 = (if \<not> shown2
                                             then say Ipv6Secondary
                                                    (s3\<lparr>shown_ipv6_warning_secondary := Some True\<rparr>)
                                             else s3)
                                   in if purgeUnknownRecords g then
                                        (case deleteEntries g net ''AAAA'' s4 of
                                           (Inl e', s5) \<Rightarrow> (Inl e', s5)
                                         | (Inr _, s5) \<Rightarrow> (Inr aaaa2, s5))
                                      else (Inr aaaa2, s4)))))))"

definition getIPs ::
  "globals \<Rightarrow> 'w net \<Rightarrow> 'w state \<Rightarrow> (py_error + detected_ip list) \<times> 'w state"
where
  "getIPs g net s =
     (case detect_ipv4 g net s of
        (Inl e, s1) \<Rightarrow> (Inl e, s1)
      | (Inr a, s1) \<Rightarrow>
          (case detect_ipv6 g net s1 of
             (Inl e, s2) \<Rightarrow> (Inl e, s2)
           | (Inr aaaa, s2) \<Rightarrow>
               (Inr ((if a \<noteq> JNull then [\<lparr>ip_type = ''A'', ip = a\<rparr>] else [])
                     @ (if aaaa \<noteq> JNull then [\<lparr>ip_type = ''AAAA'', ip = aaaa\<rparr>] else [])),
                s2)))"

section \<open>Poll loop\<close>

text \<open>
  The body of the \<^verbatim>\<open>while\<close> loop up to the sleep: \<^verbatim>\<open>ips = getIPs()\<close> and
  \<^verbatim>\<open>updateIPs(ips)\<close>. Nothing around it catches an exception, so \<open>Inl\<close> ends the process.
\<close>

definition poll_cycle :: "globals \<Rightarrow> 'w net \<Rightarrow> 'w state \<Rightarrow> (py_error + unit) \<times> 'w state" where
  "poll_cycle g net s =
     (case getIPs g net s of
        (Inl e, s1) \<Rightarrow> (Inl e, s1)
      | (Inr ips, s1) \<Rightarrow> (Inr (), updateIPs g net ips s1))"

section \<open>Reading a record listing\<close>

text \<open>
  What \<^verbatim>\<open>processDNSRecord\<close> reads of a listed record, named for the statements
  below. A listed record \<open>has_fields\<close> when the four subscripts of the loop succeed on it;
  \<open>field\<close> is the value of a subscript; a record \<open>matches\<close> when
  \<^verbatim>\<open>r["name"] == fqdn\<close>; it \<open>diverges\<close> when
  \<^verbatim>\<open>r['content'] != record['content'] or r['proxied'] != record['proxied']\<close>.
\<close>

definition has_fields :: "json \<Rightarrow> bool" where
  "has_fields r =
     (\<not> isl (getitem r ''name'') \<and> \<not> isl (getitem r ''id'')
      \<and> \<not> isl (getitem r ''content'') \<and> \<not> isl (getitem r ''proxied''))"

definition field :: "json \<Rightarrow> string \<Rightarrow> json" where
  "field r k = (case getitem r k of Inl e \<Rightarrow> JNull | Inr v \<Rightarrow> v)"

definition matches :: "string \<Rightarrow> json \<Rightarrow> bool" where
  "matches fqdn r = (getitem r ''name'' = Inr (JStr fqdn))"

definition diverges :: "dns_record \<Rightarrow> json \<Rightarrow> bool" where
  "diverges record r =
     (field r ''content'' \<noteq> r_content record
      \<or> \<not> json_eq_bool (field r ''proxied'') (r_proxied record))"

text \<open>The last listed record that matches, if any.\<close>

definition managed_record :: "string \<Rightarrow> json list \<Rightarrow> json option" where
  "managed_record fqdn rs =
     (case rev (filter (matches fqdn) rs) of [] \<Rightarrow> None | m # ms \<Rightarrow> Some m)"

text \<open>A request to an IP detection service, as opposed to a provider call.\<close>

definition is_detection :: "request \<Rightarrow> bool" where
  "is_detection c = (case c of IpGet u t \<Rightarrow> True | CfRequest m e h d \<Rightarrow> False)"

section \<open>A scripted world and sample data\<close>

text \<open>
  A world that is the list of the answers still to come: each request takes the next
  one, and an exhausted script raises.
\<close>

definition scripted :: "(response option list) net" where
  "scripted w req = (case w of [] \<Rightarrow> (None, []) | r # rs \<Rightarrow> (r, rs))"

definition reply :: "nat \<Rightarrow> string \<Rightarrow> json option \<Rightarrow> response option" where
  "reply st txt j = Some \<lparr> status_code = st, body_text = txt, json_result = j \<rparr>"

definition ok_json :: "json \<Rightarrow> response option" where
  "ok_json j = reply 200 [] (Some j)"

definition provider_record :: "string \<Rightarrow> string \<Rightarrow> string \<Rightarrow> bool \<Rightarrow> json" where
  "provider_record i n c p =
     JObj [(''id'', JStr i), (''type'', JStr ''A''), (''name'', JStr n),
           (''content'', JStr c), (''proxied'', JBool p), (''ttl'', JNum 300)]"

definition record_listing :: "json list \<Rightarrow> json" where
  "record_listing rs = JObj [(''success'', JBool True), (''result'', JArr rs)]"

definition example_account :: account where
  "example_account =
     \<lparr> authentication = \<lparr> api_token = Some ''token'', api_key = None \<rparr>,
       zone_id = ''zone1'', proxied = False,
       subdomains = [SubDict (Some ''home'') None] \<rparr>"

definition example_config :: config where
  "example_config =
     \<lparr> cloudflare = [example_account], cfg_ttl = Some 300, cfg_purgeUnknownRecords = None \<rparr>"

definition example_ip :: detected_ip where
  "example_ip = \<lparr> ip_type = ''A'', ip = JStr ''1.2.3.4'' \<rparr>"

definition example_record :: dns_record where
  "example_record =
     \<lparr> r_type = ''A'', r_name = ''home.example.com'', r_content = JStr ''1.2.3.4'',
       r_proxied = False, r_ttl = 300 \<rparr>"

section \<open>Facts about the helpers\<close>

lemma strip_decomp:
  "\<exists>pre post. n = pre @ strip n @ post \<and> (\<forall>c\<in>set pre. is_space c) \<and> (\<forall>c\<in>set post. is_space c)"
proof -
  let ?a = "takeWhile is_space n" and ?m = "dropWhile is_space n"
  let ?b = "takeWhile is_space (rev ?m)"
  have "rev ?m = ?b @ dropWhile is_space (rev ?m)" by simp
  then have "?m = rev (dropWhile is_space (rev ?m)) @ rev ?b"
    by (metis rev_append rev_rev_ident)
  then have "n = ?a @ strip n @ rev ?b"
    by (metis strip_def takeWhile_dropWhile_id)
  moreover have "\<forall>c\<in>set ?a. is_space c" by (metis set_takeWhileD)
  moreover have "\<forall>c\<in>set (rev ?b). is_space c" by (metis set_rev set_takeWhileD)
  ultimately show ?thesis by blast
qed
lemma last_dropWhile_ne: "dropWhile P xs \<noteq> [] \<Longrightarrow> last (dropWhile P xs) = last xs"
  by (induction xs) (auto split: if_splits)

lemma strip_ends:
  assumes "strip n \<noteq> []"
  shows "\<not> is_space (hd (strip n)) \<and> \<not> is_space (last (strip n))"
proof -
  let ?m = "dropWhile is_space n"
  let ?d = "dropWhile is_space (rev ?m)"
  from assms have d: "?d \<noteq> []" by (simp add: strip_def)
  have m: "?m \<noteq> []"
  proof
    assume "?m = []"
    then have "?d = []" by (metis dropWhile.simps(1) rev.simps(1))
    with d show False by contradiction
  qed
  have "last (strip n) = hd ?d" using d by (simp add: strip_def last_rev)
  moreover have "\<not> is_space (hd ?d)" using d by (rule hd_dropWhile)
  moreover have "hd (strip n) = last ?d" using d by (simp add: strip_def hd_rev)
  moreover have "last ?d = last (rev ?m)" using d by (rule last_dropWhile_ne)
  moreover have "last (rev ?m) = hd ?m" using m by (simp add: last_rev)
  moreover have "\<not> is_space (hd ?m)" using m by (rule hd_dropWhile)
  ultimately show ?thesis by simp
qed

lemma lower_char_not_upper: "\<not> is_upper (lower_char c)"
proof (cases "is_upper c")
  case True
  then have b: "65 \<le> (of_char c :: nat)" "(of_char c :: nat) \<le> 90"
    by (simp_all add: is_upper_def)
  then have "(of_char (char_of (of_char c + (32 :: nat))) :: nat) = of_char c + 32"
    by simp
  with b True show ?thesis by (simp add: lower_char_def is_upper_def)
next
  case False
  then show ?thesis by (simp add: lower_char_def)
qed

lemma lower_no_upper: "c \<in> set (lower s) \<Longrightarrow> \<not> is_upper c"
  by (auto simp: lower_def lower_char_not_upper)

lemma lower_char_code:
  "(of_char (lower_char c) :: nat) =
     (if 65 \<le> (of_char c :: nat) \<and> (of_char c :: nat) \<le> 90 then of_char c + 32 else of_char c)"
  by (simp add: lower_char_def is_upper_def)

lemma managed_record_Cons:
  "managed_record fqdn (r # rs) =
     (case managed_record fqdn rs of
        Some m \<Rightarrow> Some m
      | None \<Rightarrow> if matches fqdn r then Some r else None)"
  by (simp add: managed_record_def split: list.splits)

lemma scan_records_listed:
  "\<forall>r\<in>set rs. has_fields r \<Longrightarrow>
   scan_records fqdn record rs acc =
     Inr (case managed_record fqdn rs of
            None \<Rightarrow> acc
          | Some m \<Rightarrow> (field m ''id'', diverges record m))"
proof (induction rs arbitrary: acc)
  case Nil
  then show ?case by (simp add: managed_record_def)
next
  case (Cons r rs)
  then have hf: "has_fields r" and rest: "\<forall>x\<in>set rs. has_fields x" by simp_all
  from hf obtain n i c p where
    g: "getitem r ''name'' = Inr n" "getitem r ''id'' = Inr i"
       "getitem r ''content'' = Inr c" "getitem r ''proxied'' = Inr p"
    by (auto simp: has_fields_def isl_def) (metis sum.exhaust)
  show ?case
    using g Cons.IH [OF rest]
    by (auto simp: managed_record_Cons matches_def field_def diverges_def split: option.splits)
qed

lemma cf_api_calls:
  "buildHeaders option = Inr hs \<Longrightarrow>
   calls (snd (cf_api net ep m option data s)) = calls s @ [CfRequest m ep hs data]
   \<and> \<not> isl (fst (cf_api net ep m option data s))"
  by (auto simp: cf_api_def send_def say_def split: prod.splits option.splits)


lemma cf_api_ok:
  assumes "buildHeaders option = Inr hs"
    and "net (world s) (CfRequest m ep hs data) = (Some r, w')"
    and "\<not> (400 \<le> status_code r \<and> status_code r < 600)"
    and "json_result r = Some j"
  shows "cf_api net ep m option data s =
           (Inr j, s\<lparr>world := w', calls := calls s @ [CfRequest m ep hs data]\<rparr>)"
  using assms by (auto simp: cf_api_def send_def)

lemma result_truthy:
  "dict_get listing ''result'' = Inr (JArr rs) \<Longrightarrow> rs \<noteq> [] \<Longrightarrow> truthy listing"
  by (cases listing) (auto simp: lookup_def split: option.splits)

lemma processDNSRecord_listed:
  assumes hs: "buildHeaders option = Inr hs"
    and net: "net (world s) (CfRequest GET (DnsRecordsList (zone_id option) ty) hs None) = (Some r, w')"
    and st: "\<not> (400 \<le> status_code r \<and> status_code r < 600)"
    and js: "json_result r = Some listing"
    and res: "dict_get listing ''result'' = Inr (JArr rs)"
    and ne: "rs \<noteq> []"
    and wf: "\<forall>x\<in>set rs. has_fields x"
    and s1: "s1 = s\<lparr>world := w', calls := calls s @ [CfRequest GET (DnsRecordsList (zone_id option) ty) hs None]\<rparr>"
  shows "processDNSRecord net fqdn record ty option s =
     (case managed_record fqdn rs of
        None \<Rightarrow>
          (case cf_api net (DnsRecords (zone_id option)) POST option (Some record)
                  (say (Adding record) s1) of
             (Inl e, s2) \<Rightarrow> (Inl e, s2) | (Inr j, s2) \<Rightarrow> (Inr (), s2))
      | Some m \<Rightarrow>
          if truthy (field m ''id'') \<and> diverges record m then
            (case cf_api net (DnsRecordById (zone_id option) (field m ''id'')) PUT option
                    (Some record) (say (Updating record) s1) of
               (Inl e, s2) \<Rightarrow> (Inl e, s2) | (Inr j, s2) \<Rightarrow> (Inr (), s2))
          else if \<not> truthy (field m ''id'') then
            (case cf_api net (DnsRecords (zone_id option)) POST option (Some record)
                    (say (Adding record) s1) of
               (Inl e, s2) \<Rightarrow> (Inl e, s2) | (Inr j, s2) \<Rightarrow> (Inr (), s2))
          else (Inr (), s1))"
proof -
  have get: "cf_api net (DnsRecordsList (zone_id option) ty) GET option None s = (Inr listing, s1)"
    unfolding s1 using hs net st js by (rule cf_api_ok)
  have tr: "truthy listing" using res ne by (rule result_truthy)
  show ?thesis
    unfolding processDNSRecord_def
    by (simp add: get tr res ne scan_records_listed [OF wf] split: option.splits)
qed

lemma write_calls:
  assumes "buildHeaders option = Inr hs"
  shows "(case cf_api net ep m option data s of
            (Inl e, s2) \<Rightarrow> (Inl e, s2) | (Inr j, s2) \<Rightarrow> (Inr (), s2)) = (x, s') \<Longrightarrow>
         x = Inr () \<and> calls s' = calls s @ [CfRequest m ep hs data]"
  using cf_api_calls [OF assms, of net ep m data s]
  by (auto split: prod.splits sum.splits)

lemma scan_records_result:
  "scan_records fqdn desired rs acc = Inr x \<Longrightarrow>
   x = (case managed_record fqdn rs of
          None \<Rightarrow> acc
        | Some m \<Rightarrow> (field m ''id'', diverges desired m))"
proof (induction rs arbitrary: acc)
  case Nil
  then show ?case by (simp add: managed_record_def)
next
  case (Cons r rs)
  from Cons.prems obtain n where n: "getitem r ''name'' = Inr n"
    by (cases "getitem r ''name''") simp_all
  show ?case
  proof (cases "n = JStr fqdn")
    case False
    then have nm: "\<not> matches fqdn r" using n by (simp add: matches_def)
    from Cons.prems n False have "scan_records fqdn desired rs acc = Inr x" by simp
    from Cons.IH [OF this] show ?thesis
      using nm by (simp add: managed_record_Cons split: option.splits)
  next
    case True
    then have mt: "matches fqdn r" using n by (simp add: matches_def)
    from Cons.prems n True obtain i where i: "getitem r ''id'' = Inr i"
      by (cases "getitem r ''id''") simp_all
    from Cons.prems n True i obtain c where c: "getitem r ''content'' = Inr c"
      by (cases "getitem r ''content''") simp_all
    show ?thesis
    proof (cases "c = r_content desired")
      case False
      then have "scan_records fqdn desired rs (i, True) = Inr x"
        using Cons.prems n True i c by simp
      from Cons.IH [OF this] show ?thesis
        using mt i c False
        by (simp add: managed_record_Cons field_def diverges_def split: option.splits)
    next
      case same: True
      from Cons.prems n True i c same obtain p where p: "getitem r ''proxied'' = Inr p"
        by (cases "getitem r ''proxied''") simp_all
      then have "scan_records fqdn desired rs (i, \<not> json_eq_bool p (r_proxied desired)) = Inr x"
        using Cons.prems n True i c same by simp
      from Cons.IH [OF this] show ?thesis
        using mt i c same p
        by (simp add: managed_record_Cons field_def diverges_def split: option.splits)
    qed
  qed
qed

lemma send_flags:
  "shown_ipv4_warning (snd (send net req s)) = shown_ipv4_warning s"
  "shown_ipv6_warning (snd (send net req s)) = shown_ipv6_warning s"
  "shown_ipv6_warning_secondary (snd (send net req s)) = shown_ipv6_warning_secondary s"
  "calls (snd (send net req s)) = calls s @ [req]"
  by (simp_all add: send_def split: prod.splits)

lemma say_flags:
  "shown_ipv4_warning (say l s) = shown_ipv4_warning s"
  "shown_ipv6_warning (say l s) = shown_ipv6_warning s"
  "shown_ipv6_warning_secondary (say l s) = shown_ipv6_warning_secondary s"
  "calls (say l s) = calls s"
  by (simp_all add: say_def)

lemma try_services_flags:
  "shown_ipv4_warning (snd (try_services net svcs s)) = shown_ipv4_warning s
   \<and> shown_ipv6_warning (snd (try_services net svcs s)) = shown_ipv6_warning s
   \<and> shown_ipv6_warning_secondary (snd (try_services net svcs s)) = shown_ipv6_warning_secondary s
   \<and> (\<exists>cs. calls (snd (try_services net svcs s)) = calls s @ cs \<and> (\<forall>c\<in>set cs. is_detection c))"
proof (induction svcs arbitrary: s)
  case Nil
  then show ?case by simp
next
  case (Cons service rest)
  obtain rep s1 where snd1: "send net (IpGet service (Some 5)) s = (rep, s1)"
    by (cases "send net (IpGet service (Some 5)) s")
  have f1: "shown_ipv4_warning s1 = shown_ipv4_warning s"
    "shown_ipv6_warning s1 = shown_ipv6_warning s"
    "shown_ipv6_warning_secondary s1 = shown_ipv6_warning_secondary s"
    "calls s1 = calls s @ [IpGet service (Some 5)]"
    using send_flags [of net "IpGet service (Some 5)" s] snd1 by simp_all
  show ?case
  proof (cases rep)
    case None
    from Cons.IH [of "say (ServiceError service) s1"] obtain cs where
      "calls (snd (try_services net rest (say (ServiceError service) s1))) = calls (say (ServiceError service) s1) @ cs"
      "\<forall>c\<in>set cs. is_detection c" by blast
    then have "calls (snd (try_services net rest (say (ServiceError service) s1))) = calls s @ (IpGet service (Some 5) # cs)
               \<and> (\<forall>c\<in>set (IpGet service (Some 5) # cs). is_detection c)"
      using f1 by (simp add: say_flags is_detection_def)
    then show ?thesis
      using Cons.IH [of "say (ServiceError service) s1"] snd1 None f1
      by (auto simp: say_flags)
  next
    case (Some r)
    show ?thesis
    proof (cases "status_code r = 200")
      case True
      then show ?thesis using snd1 Some f1 by (simp add: is_detection_def)
    next
      case False
      from Cons.IH [of s1] obtain cs where
        "calls (snd (try_services net rest s1)) = calls s1 @ cs" "\<forall>c\<in>set cs. is_detection c" by blast
      then have "calls (snd (try_services net rest s1)) = calls s @ (IpGet service (Some 5) # cs)
               \<and> (\<forall>c\<in>set (IpGet service (Some 5) # cs). is_detection c)"
        using f1 by (simp add: is_detection_def)
      then show ?thesis
        using Cons.IH [of s1] snd1 Some False f1 by auto
    qed
  qed
qed

lemma trace_attempt_flags:
  "shown_ipv4_warning (snd (trace_attempt net url a s)) = shown_ipv4_warning s
   \<and> shown_ipv6_warning (snd (trace_attempt net url a s)) = shown_ipv6_warning s
   \<and> shown_ipv6_warning_secondary (snd (trace_attempt net url a s)) = shown_ipv6_warning_secondary s
   \<and> calls (snd (trace_attempt net url a s)) = calls s @ [IpGet url None]"
  using send_flags [of net "IpGet url None" s]
  by (auto simp: trace_attempt_def Let_def split: prod.splits option.splits sum.splits)

section \<open>Reconciling one target\<close>

lemma managed_record_last:
  "filter (matches fqdn) rs = ms \<Longrightarrow> ms \<noteq> [] \<Longrightarrow> managed_record fqdn rs = Some (last ms)"
  by (cases ms rule: rev_cases) (simp_all add: managed_record_def)

lemma managed_record_nonempty: "managed_record fqdn rs = Some m \<Longrightarrow> rs \<noteq> []"
  by (auto simp: managed_record_def)

text \<open>
  C3. When the listing succeeds and the record that the reconciler matches by
  fully-qualified name (the last listed record of that name) has a non-empty identifier,
  the desired content and the desired proxied flag, the only request that
  \<open>processDNSRecord\<close> adds to the log is the listing GET: there is no POST, no PUT and no
  DELETE. When every listed record has the four fields the loop reads, it also returns
  normally.
\<close>

theorem already_correct_no_write:
  assumes hs: "buildHeaders option = Inr hs"
    and net: "net (world s) (CfRequest GET (DnsRecordsList (zone_id option) ty) hs None) = (Some r, w')"
    and st: "\<not> (400 \<le> status_code r \<and> status_code r < 600)"
    and js: "json_result r = Some l"
    and res: "dict_get l ''result'' = Inr (JArr rs)"
    and m: "managed_record fqdn rs = Some m"
    and ident: "getitem m ''id'' = Inr (JStr i)" "i \<noteq> []"
    and same: "getitem m ''content'' = Inr (r_content desired)"
              "getitem m ''proxied'' = Inr (JBool (r_proxied desired))"
  shows "calls (snd (processDNSRecord net fqdn desired ty option s)) =
           calls s @ [CfRequest GET (DnsRecordsList (zone_id option) ty) hs None]
         \<and> ((\<forall>x\<in>set rs. has_fields x) \<longrightarrow>
              fst (processDNSRecord net fqdn desired ty option s) = Inr ())"
proof -
  let ?s1 = "s\<lparr>world := w', calls := calls s @ [CfRequest GET (DnsRecordsList (zone_id option) ty) hs None]\<rparr>"
  have ne: "rs \<noteq> []" using m by (rule managed_record_nonempty)
  have get: "cf_api net (DnsRecordsList (zone_id option) ty) GET option None s = (Inr l, ?s1)"
    using hs net st js by (rule cf_api_ok)
  have tr: "truthy l" using res ne by (rule result_truthy)
  have t: "truthy (field m ''id'')" using ident by (simp add: field_def)
  have d: "\<not> diverges desired m" using same by (simp add: diverges_def field_def)
  have calls: "calls (snd (processDNSRecord net fqdn desired ty option s)) = calls ?s1"
  proof (cases "scan_records fqdn desired rs (JNull, False)")
    case (Inl e)
    then show ?thesis by (simp add: processDNSRecord_def get tr res ne)
  next
    case (Inr x)
    from scan_records_result [OF Inr] m have "x = (field m ''id'', diverges desired m)" by simp
    then show ?thesis using Inr t d by (simp add: processDNSRecord_def get tr res ne)
  qed
  have ok: "fst (processDNSRecord net fqdn desired ty option s) = Inr ()"
    if wf: "\<forall>x\<in>set rs. has_fields x"
    using processDNSRecord_listed [where net = net and s = s, OF hs net st js res ne wf refl, of fqdn desired]
      m t d by simp
  from calls ok show ?thesis by simp
qed

theorem already_correct_no_write_witness:
  "calls (snd (processDNSRecord scripted ''home.example.com'' example_record ''A'' example_account
     (main_state [ok_json (record_listing [provider_record ''abc'' ''home.example.com'' ''1.2.3.4'' False])])))
   = [CfRequest GET (DnsRecordsList ''zone1'' ''A'') (Bearer ''token'') None]
   \<and> fst (processDNSRecord scripted ''home.example.com'' example_record ''A'' example_account
     (main_state [ok_json (record_listing [provider_record ''abc'' ''home.example.com'' ''1.2.3.4'' False])]))
   = Inr ()"
proof -
  let ?m = "provider_record ''abc'' ''home.example.com'' ''1.2.3.4'' False"
  let ?r = "\<lparr> status_code = 200, body_text = [], json_result = Some (record_listing [?m]) \<rparr>"
  let ?s = "main_state [Some ?r]"
  have hs: "buildHeaders example_account = Inr (Bearer ''token'')"
    by (simp add: buildHeaders_def example_account_def)
  have net: "scripted (world ?s) (CfRequest GET (DnsRecordsList (zone_id example_account) ''A'') (Bearer ''token'') None)
             = (Some ?r, [])"
    by (simp add: scripted_def main_state_def)
  have st: "\<not> (400 \<le> status_code ?r \<and> status_code ?r < 600)" by simp
  have js: "json_result ?r = Some (record_listing [?m])" by simp
  have res: "dict_get (record_listing [?m]) ''result'' = Inr (JArr [?m])"
    by (simp add: record_listing_def lookup_def)
  have wf: "\<forall>x\<in>set [?m]. has_fields x"
    by (simp add: has_fields_def provider_record_def lookup_def)
  have m: "managed_record ''home.example.com'' [?m] = Some ?m"
    by (simp add: managed_record_def matches_def provider_record_def lookup_def)
  have i1: "getitem ?m ''id'' = Inr (JStr ''abc'')" by (simp add: provider_record_def lookup_def)
  have i2: "''abc'' \<noteq> []" by simp
  have c: "getitem ?m ''content'' = Inr (r_content example_record)"
    by (simp add: provider_record_def lookup_def example_record_def)
  have p: "getitem ?m ''proxied'' = Inr (JBool (r_proxied example_record))"
    by (simp add: provider_record_def lookup_def example_record_def)
  show ?thesis
    using already_correct_no_write [where net = scripted and s = "?s", OF hs net st js res m i1 i2 c p] wf
    by (simp add: example_account_def main_state_def ok_json_def reply_def)
qed

lemma sample_getitem:
  "getitem (provider_record i n c p) ''id'' = Inr (JStr i)"
  "getitem (provider_record i n c p) ''name'' = Inr (JStr n)"
  "getitem (provider_record i n c p) ''content'' = Inr (JStr c)"
  "getitem (provider_record i n c p) ''proxied'' = Inr (JBool p)"
  by (simp_all add: provider_record_def lookup_def)

lemma sample_has_fields: "has_fields (provider_record i n c p)"
  by (simp add: has_fields_def sample_getitem)

lemma sample_matches: "matches fqdn (provider_record i n c p) = (n = fqdn)"
  by (simp add: matches_def sample_getitem)

lemma sample_result: "dict_get (record_listing rs) ''result'' = Inr (JArr rs)"
  by (simp add: record_listing_def lookup_def)

lemma sample_headers: "buildHeaders example_account = Inr (Bearer ''token'')"
  by (simp add: buildHeaders_def example_account_def)

lemma scripted_next: "scripted (world (main_state (Some r # rest))) req = (Some r, rest)"
  by (simp add: scripted_def main_state_def)



text \<open>
  C8. When several listed records have the computed fully-qualified name, the one the
  reconciler treats as managed is the last of them in the listed order: the divergence
  check is the one of that record, and the only write that can follow the listing is one
  PUT to that record's identifier.
\<close>

theorem last_match_is_managed:
  assumes hs: "buildHeaders option = Inr hs"
    and net: "net (world s) (CfRequest GET (DnsRecordsList (zone_id option) ty) hs None) = (Some r, w')"
    and st: "\<not> (400 \<le> status_code r \<and> status_code r < 600)"
    and js: "json_result r = Some l"
    and res: "dict_get l ''result'' = Inr (JArr rs)"
    and wf: "\<forall>x\<in>set rs. has_fields x"
    and ms: "filter (matches fqdn) rs = ms" "ms \<noteq> []"
    and ident: "getitem (last ms) ''id'' = Inr (JStr i)" "i \<noteq> []"
  shows "fst (processDNSRecord net fqdn desired ty option s) = Inr ()
         \<and> calls (snd (processDNSRecord net fqdn desired ty option s)) =
             calls s @ [CfRequest GET (DnsRecordsList (zone_id option) ty) hs None]
               @ (if diverges desired (last ms)
                  then [CfRequest PUT (DnsRecordById (zone_id option) (JStr i)) hs (Some desired)]
                  else [])"
proof -
  have m: "managed_record fqdn rs = Some (last ms)" using ms by (rule managed_record_last)
  have ne: "rs \<noteq> []" using m by (rule managed_record_nonempty)
  have t: "truthy (field (last ms) ''id'')" "field (last ms) ''id'' = JStr i"
    using ident by (simp_all add: field_def)
  let ?s1 = "s\<lparr>world := w', calls := calls s @ [CfRequest GET (DnsRecordsList (zone_id option) ty) hs None]\<rparr>"
  note listed = processDNSRecord_listed [where net = net and s = s, OF hs net st js res ne wf refl, of fqdn desired]
  show ?thesis
  proof (cases "diverges desired (last ms)")
    case True
    let ?put = "cf_api net (DnsRecordById (zone_id option) (JStr i)) PUT option (Some desired) (say (Updating desired) ?s1)"
    have eq: "processDNSRecord net fqdn desired ty option s =
                (case ?put of (Inl e, s2) \<Rightarrow> (Inl e, s2) | (Inr j, s2) \<Rightarrow> (Inr (), s2))"
      using listed m t True by simp
    obtain x s' where xs: "processDNSRecord net fqdn desired ty option s = (x, s')"
      by (cases "processDNSRecord net fqdn desired ty option s")
    from write_calls [OF hs, of net _ PUT "Some desired" "say (Updating desired) ?s1" x s']
    have "x = Inr () \<and> calls s' = calls (say (Updating desired) ?s1) @ [CfRequest PUT (DnsRecordById (zone_id option) (JStr i)) hs (Some desired)]"
      using eq xs by simp
    then show ?thesis using xs True by (simp add: say_def)
  next
    case False
    then show ?thesis using listed m t by simp
  qed
qed

theorem last_match_is_managed_witness:
  "fst (processDNSRecord scripted ''home.example.com'' example_record ''A'' example_account
          (main_state [ok_json (record_listing
                          [provider_record ''first'' ''home.example.com'' ''1.2.3.4'' False,
                           provider_record ''second'' ''home.example.com'' ''9.9.9.9'' False]),
                       ok_json JNull])) = Inr ()
   \<and> calls (snd (processDNSRecord scripted ''home.example.com'' example_record ''A'' example_account
          (main_state [ok_json (record_listing
                          [provider_record ''first'' ''home.example.com'' ''1.2.3.4'' False,
                           provider_record ''second'' ''home.example.com'' ''9.9.9.9'' False]),
                       ok_json JNull]))) =
       [CfRequest GET (DnsRecordsList ''zone1'' ''A'') (Bearer ''token'') None,
        CfRequest PUT (DnsRecordById ''zone1'' (JStr ''second'')) (Bearer ''token'') (Some example_record)]"
proof -
  let ?a = "provider_record ''first'' ''home.example.com'' ''1.2.3.4'' False"
  let ?b = "provider_record ''second'' ''home.example.com'' ''9.9.9.9'' False"
  let ?r = "\<lparr> status_code = 200, body_text = [], json_result = Some (record_listing [?a, ?b]) \<rparr>"
  let ?s = "main_state [Some ?r, ok_json JNull]"
  have net: "scripted (world ?s) (CfRequest GET (DnsRecordsList (zone_id example_account) ''A'') (Bearer ''token'') None)
             = (Some ?r, [ok_json JNull])"
    by (rule scripted_next)
  have st: "\<not> (400 \<le> status_code ?r \<and> status_code ?r < 600)" by simp
  have js: "json_result ?r = Some (record_listing [?a, ?b])" by simp
  have wf: "\<forall>x\<in>set [?a, ?b]. has_fields x" by (simp add: sample_has_fields)
  have ms: "filter (matches ''home.example.com'') [?a, ?b] = [?a, ?b]" by (simp add: sample_matches)
  have ne: "[?a, ?b] \<noteq> []" by simp
  have i1: "getitem (last [?a, ?b]) ''id'' = Inr (JStr ''second'')" by (simp add: sample_getitem)
  have i2: "''second'' \<noteq> []" by simp
  have d: "diverges example_record (last [?a, ?b])"
    by (simp add: diverges_def field_def sample_getitem example_record_def)
  show ?thesis
    using last_match_is_managed [where net = scripted and s = "?s" and desired = example_record,
        OF sample_headers net st js sample_result wf ms ne i1 i2] d
    by (simp add: example_account_def main_state_def ok_json_def reply_def)
qed

text \<open>
  C2. The claim asks for one POST whenever no listed record has the computed name. The
  guard \<^verbatim>\<open>dns_records.get("result")\<close> is false for an empty list, so on a zone with no
  record of the kind at all \<open>processDNSRecord\<close> stops after the listing: the log holds the
  GET and no POST, and the second scripted answer is never asked for.
\<close>

theorem empty_listing_no_create:
  "processDNSRecord scripted ''home.example.com'' example_record ''A'' example_account
     (main_state [ok_json (record_listing []), ok_json JNull])
   = (Inr (),
      (main_state [ok_json (record_listing []), ok_json JNull])
        \<lparr>world := [ok_json JNull],
         calls := [CfRequest GET (DnsRecordsList ''zone1'' ''A'') (Bearer ''token'') None]\<rparr>)"
  by (simp add: processDNSRecord_def cf_api_def send_def scripted_def main_state_def ok_json_def
      reply_def buildHeaders_def record_listing_def lookup_def example_account_def)

text \<open>
  On a listing that is not empty the branch \<^verbatim>\<open>elif not identifier\<close> does what the claim
  says: one POST with the desired record follows the GET.
\<close>

lemma absent_in_listing_creates:
  assumes hs: "buildHeaders option = Inr hs"
    and net: "net (world s) (CfRequest GET (DnsRecordsList (zone_id option) ty) hs None) = (Some r, w')"
    and st: "\<not> (400 \<le> status_code r \<and> status_code r < 600)"
    and js: "json_result r = Some l"
    and res: "dict_get l ''result'' = Inr (JArr rs)"
    and ne: "rs \<noteq> []"
    and wf: "\<forall>x\<in>set rs. has_fields x"
    and none: "filter (matches fqdn) rs = []"
  shows "fst (processDNSRecord net fqdn record ty option s) = Inr ()
         \<and> calls (snd (processDNSRecord net fqdn record ty option s)) =
             calls s @ [CfRequest GET (DnsRecordsList (zone_id option) ty) hs None,
                        CfRequest POST (DnsRecords (zone_id option)) hs (Some record)]"
proof -
  have m: "managed_record fqdn rs = None" using none by (simp add: managed_record_def)
  let ?s1 = "s\<lparr>world := w', calls := calls s @ [CfRequest GET (DnsRecordsList (zone_id option) ty) hs None]\<rparr>"
  let ?post = "cf_api net (DnsRecords (zone_id option)) POST option (Some record) (say (Adding record) ?s1)"
  have eq: "processDNSRecord net fqdn record ty option s =
              (case ?post of (Inl e, s2) \<Rightarrow> (Inl e, s2) | (Inr j, s2) \<Rightarrow> (Inr (), s2))"
    using processDNSRecord_listed [where net = net and s = s, OF hs net st js res ne wf refl, of fqdn "record"] m
    by simp
  obtain x s' where xs: "processDNSRecord net fqdn record ty option s = (x, s')"
    by (cases "processDNSRecord net fqdn record ty option s")
  from write_calls [OF hs, of net _ POST "Some record" "say (Adding record) ?s1" x s']
  have "x = Inr () \<and> calls s' = calls (say (Adding record) ?s1) @ [CfRequest POST (DnsRecords (zone_id option)) hs (Some record)]"
    using eq xs by simp
  then show ?thesis using xs by (simp add: say_def)
qed

section \<open>Provider client failures\<close>




section \<open>Fully-qualified names\<close>

text \<open>
  C7, as amended. For a target whose \<open>name\<close> entry is an ASCII string, the computed
  fully-qualified name is a function of that name and of the base domain alone (the
  globals, the proxy settings, the detected address and the account do not enter). When
  the name, stripped and lowercased, is empty or \<open>@\<close> it is exactly the base domain;
  otherwise it is the stripped, lowercased name, a dot, and the base domain.
\<close>

theorem fqdn_of_named_target:
  assumes "is_ascii n"
  shows "map_sum id fst (prepareDNSRecord g (SubDict (Some n) p) base ipa option) =
     Inr (if lower (strip n) = [] \<or> lower (strip n) = ''@'' then base
          else lower (strip n) @ ''.'' @ base)
   \<and> map_sum id fst (prepareDNSRecord g (SubDict (Some []) p) base ipa option) = Inr base
   \<and> map_sum id fst (prepareDNSRecord g (SubDict (Some ''@'') p) base ipa option) = Inr base
   \<and> map_sum id fst (prepareDNSRecord g (SubDict (Some n) p) base ipa option) =
       map_sum id fst (prepareDNSRecord g' (SubDict (Some n) p') base ipa' option')"
  by (simp add: Let_def strip_def lower_def is_space_def lower_char_def is_upper_def)

theorem fqdn_of_named_target_witness:
  "is_ascii ''www''
   \<and> map_sum id fst (prepareDNSRecord (main_globals example_config) (SubDict (Some ''www'') None)
                     ''example.com'' example_ip example_account) = Inr ''www.example.com''"
proof -
  have a: "is_ascii ''www''" by (simp add: is_ascii_def)
  have n: "lower (strip ''www'') = ''www''" by code_simp
  show ?thesis
    using fqdn_of_named_target [OF a, of "main_globals example_config" None "''example.com''"
        example_ip example_account] a
    by (simp add: n)
qed

text \<open>
  C7, as stated, fails for a target without a \<open>name\<close> entry: the default of
  \<^verbatim>\<open>subdomain.get("name", subdomain)\<close> is the dict itself, and \<^verbatim>\<open>strip\<close> on it raises.
\<close>

theorem absent_name_counterexample:
  "prepareDNSRecord (main_globals example_config) (SubDict None None) ''example.com''
     example_ip example_account = Inl AttributeError"
  by simp

text \<open>
  C10. For a target whose name is an ASCII string, the name that \<open>prepareDNSRecord\<close>
  uses is the configured one normalised: the configured name is a run of whitespace, a
  middle part that neither starts nor ends with whitespace, and a run of whitespace; the
  name used has the length of the middle part and, position by position, the same
  character code, except that a code from 65 to 90 (\<open>A\<close> to \<open>Z\<close>) is raised by 32 (\<open>a\<close>
  to \<open>z\<close>). The fully-qualified name is built from that name, and the \<open>name\<close> field of
  the record that is later sent in a POST or PUT is that fully-qualified name.
\<close>

theorem target_name_normalised:
  assumes ascii: "is_ascii n"
    and prep: "prepareDNSRecord g (SubDict (Some n) p) base ipa option = Inr (fqdn, desired)"
  shows "\<exists>pre m post name.
      n = pre @ m @ post
    \<and> list_all (\<lambda>c. (of_char c :: nat) \<in> {9, 10, 11, 12, 13, 28, 29, 30, 31, 32}) pre
    \<and> list_all (\<lambda>c. (of_char c :: nat) \<in> {9, 10, 11, 12, 13, 28, 29, 30, 31, 32}) post
    \<and> (m \<noteq> [] \<longrightarrow> (of_char (hd m) :: nat) \<notin> {9, 10, 11, 12, 13, 28, 29, 30, 31, 32}
                  \<and> (of_char (last m) :: nat) \<notin> {9, 10, 11, 12, 13, 28, 29, 30, 31, 32})
    \<and> length name = length m
    \<and> (\<forall>k<length m. (of_char (name ! k) :: nat) =
          (if 65 \<le> (of_char (m ! k) :: nat) \<and> (of_char (m ! k) :: nat) \<le> 90
           then of_char (m ! k) + 32 else of_char (m ! k)))
    \<and> m = strip n \<and> name = lower (strip n)
    \<and> fqdn = (if name = [] \<or> name = ''@'' then base else name @ ''.'' @ base)
    \<and> r_name desired = fqdn"
proof -
  have a: "r_name desired = fqdn"
    and b: "fqdn = (if lower (strip n) = [] \<or> lower (strip n) = ''@'' then base
               else lower (strip n) @ ''.'' @ base)"
    using prep by (auto simp: Let_def)
  obtain pre post where c: "n = pre @ strip n @ post"
      "\<forall>c\<in>set pre. is_space c" "\<forall>c\<in>set post. is_space c"
    using strip_decomp by blast
  have c1: "list_all (\<lambda>c. (of_char c :: nat) \<in> {9, 10, 11, 12, 13, 28, 29, 30, 31, 32}) pre"
    using c(2) unfolding list_all_iff is_space_def by blast
  have c2: "list_all (\<lambda>c. (of_char c :: nat) \<in> {9, 10, 11, 12, 13, 28, 29, 30, 31, 32}) post"
    using c(3) unfolding list_all_iff is_space_def by blast
  have d: "strip n \<noteq> [] \<longrightarrow> (of_char (hd (strip n)) :: nat) \<notin> {9, 10, 11, 12, 13, 28, 29, 30, 31, 32}
                  \<and> (of_char (last (strip n)) :: nat) \<notin> {9, 10, 11, 12, 13, 28, 29, 30, 31, 32}"
    using strip_ends [of n] unfolding is_space_def by blast
  have e: "length (lower (strip n)) = length (strip n)" by (simp add: lower_def)
  have h: "\<forall>k<length (strip n). (of_char (lower (strip n) ! k) :: nat) =
          (if 65 \<le> (of_char (strip n ! k) :: nat) \<and> (of_char (strip n ! k) :: nat) \<le> 90
           then of_char (strip n ! k) + 32 else of_char (strip n ! k))"
    by (simp add: lower_def lower_char_code)
  from a b c(1) c1 c2 d e h show ?thesis by blast
qed

theorem target_name_normalised_witness:
  "is_ascii '' Home ''
   \<and> prepareDNSRecord (main_globals example_config) (SubDict (Some '' Home '') None)
       ''example.com'' example_ip example_account = Inr (''home.example.com'', example_record)
   \<and> (\<exists>pre m post name.
      '' Home '' = pre @ m @ post
    \<and> list_all (\<lambda>c. (of_char c :: nat) \<in> {9, 10, 11, 12, 13, 28, 29, 30, 31, 32}) pre
    \<and> list_all (\<lambda>c. (of_char c :: nat) \<in> {9, 10, 11, 12, 13, 28, 29, 30, 31, 32}) post
    \<and> (m \<noteq> [] \<longrightarrow> (of_char (hd m) :: nat) \<notin> {9, 10, 11, 12, 13, 28, 29, 30, 31, 32}
                  \<and> (of_char (last m) :: nat) \<notin> {9, 10, 11, 12, 13, 28, 29, 30, 31, 32})
    \<and> length name = length m
    \<and> (\<forall>k<length m. (of_char (name ! k) :: nat) =
          (if 65 \<le> (of_char (m ! k) :: nat) \<and> (of_char (m ! k) :: nat) \<le> 90
           then of_char (m ! k) + 32 else of_char (m ! k)))
    \<and> m = ''Home'' \<and> name = ''home''
    \<and> ''home.example.com'' = (if name = [] \<or> name = ''@'' then ''example.com''
                               else name @ ''.'' @ ''example.com'')
    \<and> r_name example_record = ''home.example.com'')"
proof -
  have a: "is_ascii '' Home ''" by (simp add: is_ascii_def)
  have s: "strip '' Home '' = ''Home''" by code_simp
  have n: "lower (strip '' Home '') = ''home''" by code_simp
  have h: "prepareDNSRecord (main_globals example_config) (SubDict (Some '' Home '') None)
     ''example.com'' example_ip example_account = Inr (''home.example.com'', example_record)"
    by (simp add: n Let_def main_globals_def example_config_def example_ip_def
        example_account_def example_record_def)
  have l: "lower ''Home'' = ''home''" by code_simp
  note t = target_name_normalised [OF a h, unfolded s l]
  show ?thesis by (rule conjI [OF a conjI [OF h t]])
qed

section \<open>Failures inside a cycle\<close>

text \<open>
  C1. The claim asks that no detection failure ends the process. \<^verbatim>\<open>__main__\<close> never
  binds \<^verbatim>\<open>shown_ipv4_warning\<close>, so in the first cycle in which all three IPv4 services
  fail, the handler in \<open>getIPs\<close> raises \<^verbatim>\<open>NameError\<close> when it reads the flag; nothing
  catches it, and the cycle does not return to the loop.
\<close>

theorem ipv4_failure_ends_process:
  "fst (poll_cycle (main_globals example_config) scripted (main_state [None, None, None]))
     = Inl NameError
   \<and> calls (snd (poll_cycle (main_globals example_config) scripted (main_state [None, None, None])))
     = [IpGet ''https://api.ipify.org'' (Some 5), IpGet ''https://icanhazip.com'' (Some 5),
        IpGet ''https://ifconfig.me'' (Some 5)]"
  by (simp add: poll_cycle_def getIPs_def detect_ipv4_def get_public_ip_def
      ip_detection_services_def send_def scripted_def main_state_def main_globals_def say_def)

text \<open>
  What remains true around the defect above. With purging disabled, \<open>getIPs\<close> sends
  detection requests only, whatever the flags; once the three warn-once globals are bound
  it returns normally, and so does the whole cycle.
\<close>

lemma detect_ipv4_no_purge:
  assumes "\<not> purgeUnknownRecords g"
  shows "shown_ipv6_warning (snd (detect_ipv4 g net s)) = shown_ipv6_warning s
   \<and> shown_ipv6_warning_secondary (snd (detect_ipv4 g net s)) = shown_ipv6_warning_secondary s
   \<and> (\<exists>cs. calls (snd (detect_ipv4 g net s)) = calls s @ cs \<and> (\<forall>c\<in>set cs. is_detection c))
   \<and> (shown_ipv4_warning s \<noteq> None \<longrightarrow> \<not> isl (fst (detect_ipv4 g net s)))"
proof -
  obtain x s1 where ts: "try_services net ip_detection_services s = (x, s1)"
    by (cases "try_services net ip_detection_services s")
  from try_services_flags [of net ip_detection_services s] ts
  have f: "shown_ipv4_warning s1 = shown_ipv4_warning s"
      "shown_ipv6_warning s1 = shown_ipv6_warning s"
      "shown_ipv6_warning_secondary s1 = shown_ipv6_warning_secondary s"
      "\<exists>cs. calls s1 = calls s @ cs \<and> (\<forall>c\<in>set cs. is_detection c)"
    by simp_all
  show ?thesis
    using assms ts f
    by (auto simp: detect_ipv4_def get_public_ip_def say_flags Let_def
        split: sum.splits option.splits)
qed


lemma detect_ipv6_no_purge:
  assumes "\<not> purgeUnknownRecords g"
  shows "(\<exists>cs. calls (snd (detect_ipv6 g net s)) = calls s @ cs \<and> (\<forall>c\<in>set cs. is_detection c))
   \<and> (shown_ipv6_warning s \<noteq> None \<and> shown_ipv6_warning_secondary s \<noteq> None
        \<longrightarrow> \<not> isl (fst (detect_ipv6 g net s)))"
proof -
  obtain e1 a1 s1 where t1: "trace_attempt net trace_primary JNull s = ((e1, a1), s1)"
    by (cases "trace_attempt net trace_primary JNull s") auto
  from trace_attempt_flags [of net trace_primary JNull s] t1
  have f1: "shown_ipv6_warning s1 = shown_ipv6_warning s"
      "shown_ipv6_warning_secondary s1 = shown_ipv6_warning_secondary s"
      "calls s1 = calls s @ [IpGet trace_primary None]"
    by simp_all
  have det: "is_detection (IpGet u t)" for u t by (simp add: is_detection_def)
  show ?thesis
  proof (cases "ipv6_enabled g \<and> e1 \<noteq> None \<and> shown_ipv6_warning s \<noteq> None")
    case False
    then show ?thesis
      using t1 f1 det by (auto simp: detect_ipv6_def split: option.splits)
  next
    case True
    then obtain shown where sh: "shown_ipv6_warning s1 = Some shown" using f1 by auto
    define s2 where "s2 = (if \<not> shown then say Ipv6Primary (s1\<lparr>shown_ipv6_warning := Some True\<rparr>) else s1)"
    have f2: "shown_ipv6_warning_secondary s2 = shown_ipv6_warning_secondary s"
        "calls s2 = calls s @ [IpGet trace_primary None]"
      using f1 by (simp_all add: s2_def say_flags)
    obtain e2 a2 s3 where t2: "trace_attempt net trace_secondary a1 s2 = ((e2, a2), s3)"
      by (cases "trace_attempt net trace_secondary a1 s2") auto
    from trace_attempt_flags [of net trace_secondary a1 s2] t2 f2
    have f3: "shown_ipv6_warning_secondary s3 = shown_ipv6_warning_secondary s"
        "calls s3 = calls s @ [IpGet trace_primary None, IpGet trace_secondary None]"
      by simp_all
    have unfold: "detect_ipv6 g net s =
        (case e2 of None \<Rightarrow> (Inr a2, s3)
         | Some e \<Rightarrow>
            (case shown_ipv6_warning_secondary s3 of
               None \<Rightarrow> (Inl NameError, s3)
             | Some shown2 \<Rightarrow>
                 (Inr a2, if \<not> shown2
                          then say Ipv6Secondary (s3\<lparr>shown_ipv6_warning_secondary := Some True\<rparr>)
                          else s3)))"
      using True assms t1 sh t2
      by (auto simp: detect_ipv6_def Let_def s2_def split: option.splits)
    show ?thesis
      unfolding unfold using f3 det
      by (auto simp: say_flags split: option.splits)
  qed
qed

lemma getIPs_no_purge:
  assumes np: "\<not> purgeUnknownRecords g"
  shows "(\<exists>cs. calls (snd (getIPs g net s)) = calls s @ cs \<and> (\<forall>c\<in>set cs. is_detection c))
   \<and> (shown_ipv4_warning s \<noteq> None \<and> shown_ipv6_warning s \<noteq> None
        \<and> shown_ipv6_warning_secondary s \<noteq> None
        \<longrightarrow> \<not> isl (fst (getIPs g net s)))"
proof -
  obtain x s1 where d4: "detect_ipv4 g net s = (x, s1)" by (cases "detect_ipv4 g net s")
  from detect_ipv4_no_purge [OF np, of net s] d4
  obtain cs1 where f1: "shown_ipv6_warning s1 = shown_ipv6_warning s"
      "shown_ipv6_warning_secondary s1 = shown_ipv6_warning_secondary s"
      "calls s1 = calls s @ cs1" "\<forall>c\<in>set cs1. is_detection c"
      "shown_ipv4_warning s \<noteq> None \<longrightarrow> \<not> isl x"
    by auto
  obtain y s2 where d6: "detect_ipv6 g net s1 = (y, s2)" by (cases "detect_ipv6 g net s1")
  from detect_ipv6_no_purge [OF np, of net s1] d6 f1
  obtain cs2 where f2: "calls s2 = calls s1 @ cs2" "\<forall>c\<in>set cs2. is_detection c"
      "shown_ipv6_warning s \<noteq> None \<and> shown_ipv6_warning_secondary s \<noteq> None \<longrightarrow> \<not> isl y"
    by auto
  have c2: "calls s2 = calls s @ (cs1 @ cs2) \<and> (\<forall>c\<in>set (cs1 @ cs2). is_detection c)"
    using f1 f2 by auto
  show ?thesis
  proof (cases x)
    case (Inl e)
    then show ?thesis using d4 f1 by (auto simp: getIPs_def)
  next
    case (Inr a)
    show ?thesis
    proof (cases y)
      case (Inl e)
      then show ?thesis using d4 d6 Inr f2 c2 by (auto simp: getIPs_def)
    next
      case right: (Inr b)
      then show ?thesis using d4 d6 Inr c2 by (auto simp: getIPs_def)
    qed
  qed
qed

lemma poll_cycle_returns_when_flags_bound:
  assumes "\<not> purgeUnknownRecords g"
    and "shown_ipv4_warning s \<noteq> None" "shown_ipv6_warning s \<noteq> None"
        "shown_ipv6_warning_secondary s \<noteq> None"
  shows "fst (poll_cycle g net s) = Inr ()"
proof -
  from getIPs_no_purge [OF assms(1), of net s] assms(2-4)
  have "\<not> isl (fst (getIPs g net s))" by blast
  then show ?thesis
    by (cases "getIPs g net s") (auto simp: poll_cycle_def split: sum.splits)
qed

text \<open>
  The purge itself, once reached: \<open>delete_records\<close> sends one DELETE per listed record,
  by identifier and in the listed order, whatever the names; an account whose listing
  succeeds contributes its GET and those DELETEs before the next account is handled; and
  with both warn-once globals bound, two failed trace requests lead to
  \<^verbatim>\<open>deleteEntries("AAAA")\<close>.
\<close>

lemma delete_records_calls:
  assumes hs: "buildHeaders option = Inr hs"
  shows "\<forall>r\<in>set rs. \<not> isl (getitem r ''id'') \<Longrightarrow>
         fst (delete_records net option rs s) = Inr ()
         \<and> calls (snd (delete_records net option rs s)) =
             calls s @ map (\<lambda>r. CfRequest DELETE (DnsRecordById (zone_id option) (field r ''id'')) hs None) rs"
proof (induction rs arbitrary: s)
  case Nil
  then show ?case by simp
next
  case (Cons r rs)
  then obtain i where i: "getitem r ''id'' = Inr i"
    by (cases "getitem r ''id''") auto
  obtain x s1 where c: "cf_api net (DnsRecordById (zone_id option) i) DELETE option None s = (x, s1)"
    by (cases "cf_api net (DnsRecordById (zone_id option) i) DELETE option None s")
  from cf_api_calls [OF hs, of net "DnsRecordById (zone_id option) i" DELETE None s] c
  obtain j where x: "x = Inr j"
    and c1: "calls s1 = calls s @ [CfRequest DELETE (DnsRecordById (zone_id option) i) hs None]"
    by (cases x) auto
  from Cons.prems have rest: "\<forall>r\<in>set rs. \<not> isl (getitem r ''id'')" by simp
  show ?case
    using Cons.IH [OF rest, of "say (Deleted i) s1"] i c x c1
    by (simp add: say_flags field_def)
qed

lemma purge_account_step:
  assumes hs: "buildHeaders option = Inr hs"
    and net: "net (world s) (CfRequest GET (DnsRecordsList (zone_id option) ty) hs None) = (Some r, w')"
    and st: "\<not> (400 \<le> status_code r \<and> status_code r < 600)"
    and js: "json_result r = Some l"
    and res: "dict_get l ''result'' = Inr (JArr rs)"
    and ids: "\<forall>x\<in>set rs. \<not> isl (getitem x ''id'')"
    and s2: "s2 = snd (delete_records net option rs
                    (s\<lparr>world := w', calls := calls s @ [CfRequest GET (DnsRecordsList (zone_id option) ty) hs None]\<rparr>))"
  shows "delete_accounts net (option # rest) ty s = delete_accounts net rest ty s2
         \<and> calls s2 = calls s @ CfRequest GET (DnsRecordsList (zone_id option) ty) hs None
                         # map (\<lambda>x. CfRequest DELETE (DnsRecordById (zone_id option) (field x ''id'')) hs None) rs"
proof -
  let ?s1 = "s\<lparr>world := w', calls := calls s @ [CfRequest GET (DnsRecordsList (zone_id option) ty) hs None]\<rparr>"
  have get: "cf_api net (DnsRecordsList (zone_id option) ty) GET option None s = (Inr l, ?s1)"
    using hs net st js by (rule cf_api_ok)
  note dr = delete_records_calls [OF hs ids, of net ?s1]
  show ?thesis
  proof (cases "rs = []")
    case True
    then show ?thesis using get res s2
      by (cases l) (auto simp: lookup_def split: option.splits)
  next
    case False
    then have tr: "truthy l" using res by (rule result_truthy [rotated])
    obtain x sd where d: "delete_records net option rs ?s1 = (x, sd)"
      by (cases "delete_records net option rs ?s1")
    with dr have "x = Inr ()" by simp
    then show ?thesis using get tr res False d dr s2 by simp
  qed
qed

lemma ipv6_failure_purges_when_flags_bound:
  assumes en: "ipv6_enabled g" and purge: "purgeUnknownRecords g"
    and f1: "shown_ipv6_warning s = Some b1"
    and f2: "shown_ipv6_warning_secondary s = Some b2"
    and n1: "net (world s) (IpGet trace_primary None) = (None, w1)"
    and n2: "net w1 (IpGet trace_secondary None) = (None, w2)"
  shows "\<exists>s4. detect_ipv6 g net s =
                 (case deleteEntries g net ''AAAA'' s4 of
                    (Inl e, s5) \<Rightarrow> (Inl e, s5) | (Inr u, s5) \<Rightarrow> (Inr JNull, s5))
              \<and> world s4 = w2
              \<and> calls s4 = calls s @ [IpGet trace_primary None, IpGet trace_secondary None]"
  using assms
  apply (cases b1; cases b2)
     apply (simp_all add: detect_ipv6_def trace_attempt_def send_def say_def)
     apply (rule exI, rule conjI, rule refl, simp)+
  done

text \<open>
  C6. The claim asks for one DELETE per listed AAAA record when both trace endpoints
  fail and purging is enabled. Purging is enabled by the configuration, but \<^verbatim>\<open>__main__\<close>
  binds \<^verbatim>\<open>purgeUnknownRecords = False\<close> and never reads the key: for every configuration
  that sets it, every network and every state, the global is false and \<open>getIPs\<close> sends
  detection requests only. In the first cycle of the sample configuration with the key
  set, IPv4 detected and the first trace endpoint failing, the requests are the two
  detection requests and no DELETE, although the zone lists an AAAA record.
\<close>

theorem configured_purge_is_ignored:
  "purgeUnknownRecords (main_globals (c\<lparr>cfg_purgeUnknownRecords := Some True\<rparr>)) = False
   \<and> (\<exists>cs. calls (snd (getIPs (main_globals (c\<lparr>cfg_purgeUnknownRecords := Some True\<rparr>)) net s))
              = calls s @ cs
          \<and> list_all is_detection cs)
   \<and> fst (getIPs (main_globals (example_config\<lparr>cfg_purgeUnknownRecords := Some True\<rparr>)) scripted
          (main_state [reply 200 ''1.2.3.4'' None, None, None,
                       ok_json (record_listing [JObj [(''id'', JStr ''abc''), (''type'', JStr ''AAAA''),
                                                      (''name'', JStr ''home.example.com''),
                                                      (''content'', JStr ''2001:db8::1'')]]),
                       ok_json JNull]))
     = Inl NameError
   \<and> calls (snd (getIPs (main_globals (example_config\<lparr>cfg_purgeUnknownRecords := Some True\<rparr>)) scripted
          (main_state [reply 200 ''1.2.3.4'' None, None, None,
                       ok_json (record_listing [JObj [(''id'', JStr ''abc''), (''type'', JStr ''AAAA''),
                                                      (''name'', JStr ''home.example.com''),
                                                      (''content'', JStr ''2001:db8::1'')]]),
                       ok_json JNull])))
     = [IpGet ''https://api.ipify.org'' (Some 5), IpGet trace_primary None]"
proof -
  let ?g = "main_globals (c\<lparr>cfg_purgeUnknownRecords := Some True\<rparr>)"
  have np: "\<not> purgeUnknownRecords ?g" by (simp add: main_globals_def)
  have a: "purgeUnknownRecords ?g = False" using np by simp
  have b: "\<exists>cs. calls (snd (getIPs ?g net s)) = calls s @ cs \<and> list_all is_detection cs"
    using getIPs_no_purge [OF np, of net s] unfolding list_all_iff by blast
  have c: "fst (getIPs (main_globals (example_config\<lparr>cfg_purgeUnknownRecords := Some True\<rparr>)) scripted
          (main_state [reply 200 ''1.2.3.4'' None, None, None,
                       ok_json (record_listing [JObj [(''id'', JStr ''abc''), (''type'', JStr ''AAAA''),
                                                      (''name'', JStr ''home.example.com''),
                                                      (''content'', JStr ''2001:db8::1'')]]),
                       ok_json JNull]))
     = Inl NameError"
    by (simp add: getIPs_def detect_ipv4_def detect_ipv6_def get_public_ip_def trace_attempt_def
      ip_detection_services_def send_def scripted_def main_state_def main_globals_def say_def
      reply_def)
  have d: "calls (snd (getIPs (main_globals (example_config\<lparr>cfg_purgeUnknownRecords := Some True\<rparr>)) scripted
          (main_state [reply 200 ''1.2.3.4'' None, None, None,
                       ok_json (record_listing [JObj [(''id'', JStr ''abc''), (''type'', JStr ''AAAA''),
                                                      (''name'', JStr ''home.example.com''),
                                                      (''content'', JStr ''2001:db8::1'')]]),
                       ok_json JNull])))
     = [IpGet ''https://api.ipify.org'' (Some 5), IpGet trace_primary None]"
    by (simp add: getIPs_def detect_ipv4_def detect_ipv6_def get_public_ip_def trace_attempt_def
      ip_detection_services_def send_def scripted_def main_state_def main_globals_def say_def
      reply_def)
  from a b c d show ?thesis by (intro conjI)
qed

section \<open>Time to live\<close>

text \<open>
  C9. Whatever TTL the configuration gives, the TTL that the script uses is the larger of
  that value and 1: it is the poll interval and the \<open>ttl\<close> field of every record that
  \<open>prepareDNSRecord\<close> builds. A configured TTL of 0 gives 1.
\<close>

theorem ttl_floor:
  "ttl (main_globals (c\<lparr>cfg_ttl := Some t\<rparr>)) = max t 1
   \<and> poll_interval (main_globals (c\<lparr>cfg_ttl := Some t\<rparr>)) = max t 1
   \<and> 1 \<le> ttl (main_globals c)
   \<and> ttl (main_globals (c\<lparr>cfg_ttl := Some 0\<rparr>)) = 1
   \<and> (case prepareDNSRecord (main_globals (c\<lparr>cfg_ttl := Some t\<rparr>)) (SubDict (Some n) p) b ipa opt of
         Inl e \<Rightarrow> False
       | Inr (fqdn, record) \<Rightarrow> r_ttl record = max t 1)"
  by (simp add: main_globals_def poll_interval_def Let_def)

end
